theory Spec2Isabelle
  imports Complex_Main "HOL-Library.Word"
begin

section \<open>JavaScript values\<close>

text \<open>
  A JavaScript string is a sequence of UTF-16 code units. String literals of the
  source are ASCII; \<open>lit\<close> writes them as code units.
\<close>

type_synonym jsstring = "16 word list"

definition lit :: "string \<Rightarrow> jsstring" where
  "lit s = map (\<lambda>c. word_of_nat (of_char c)) s"

text \<open>
  The values that JSON bodies, property reads and \<open>process.env\<close> produce. A number
  parsed from JSON is a finite double, hence a rational; \<open>NaN\<close> does not occur. An
  object is its list of own properties, read with \<open>map_of\<close>.
\<close>

datatype jsval =
    JUndefined
  | JNull
  | JBool bool
  | JNum rat
  | JStr jsstring
  | JArr "jsval list"
  | JObj "(jsstring \<times> jsval) list"

text \<open>What the source can throw: a \<open>TypeError\<close> of the language, or an \<open>Error\<close>
  of a library (the provider SDK, axios) with its detail.\<close>

datatype js_error = TypeError | Error jsstring

text \<open>\<open>ToBoolean\<close>, as \<open>!v\<close> and \<open>v || w\<close> apply it.\<close>

fun truthy :: "jsval \<Rightarrow> bool" where
  "truthy JUndefined = False"
| "truthy JNull = False"
| "truthy (JBool b) = b"
| "truthy (JNum n) = (n \<noteq> 0)"
| "truthy (JStr s) = (s \<noteq> [])"
| "truthy (JArr xs) = True"
| "truthy (JObj fs) = True"

fun typeof :: "jsval \<Rightarrow> jsstring" where
  "typeof JUndefined = lit ''undefined''"
| "typeof JNull = lit ''object''"
| "typeof (JBool b) = lit ''boolean''"
| "typeof (JNum n) = lit ''number''"
| "typeof (JStr s) = lit ''string''"
| "typeof (JArr xs) = lit ''object''"
| "typeof (JObj fs) = lit ''object''"

text \<open>
  Reading a property \<open>v.k\<close> (or destructuring \<open>const { k } = v\<close>) for a name \<open>k\<close>
  that no built-in prototype defines, such as \<open>message\<close> and \<open>reply\<close>: it throws on
  \<open>undefined\<close> and \<open>null\<close>, finds an own property of an object, and is \<open>undefined\<close>
  everywhere else.
\<close>

fun get_prop :: "jsval \<Rightarrow> jsstring \<Rightarrow> js_error + jsval" where
  "get_prop JUndefined k = Inl TypeError"
| "get_prop JNull k = Inl TypeError"
| "get_prop (JObj fs) k = Inr (case map_of fs k of None \<Rightarrow> JUndefined | Some v \<Rightarrow> v)"
| "get_prop v k = Inr JUndefined"

section \<open>The chat endpoint of the backend\<close>

text \<open>
  The external provider is a parameter: one call gets the API key the client object
  was built with, the model name and the prompt, and either throws or yields the
  generated text (\<open>result.response.text()\<close>).
\<close>

record provider_call =
  api_key :: jsval
  model_name :: jsstring
  prompt :: jsval

type_synonym provider = "provider_call \<Rightarrow> js_error + jsstring"

text \<open>\<open>process.env\<close>: a dictionary from names to strings.\<close>

type_synonym process_env = "jsstring \<rightharpoonup> jsstring"

definition env_get :: "process_env \<Rightarrow> jsstring \<Rightarrow> jsval" where
  "env_get env k = (case env k of None \<Rightarrow> JUndefined | Some s \<Rightarrow> JStr s)"

text \<open>What the handler sends with \<open>res.status(n).json(v)\<close>; \<open>res.json(v)\<close> alone
  sends status 200.\<close>

record response =
  status :: nat
  body :: jsval

text \<open>
  The \<open>try\<close> block of the handler of \<open>POST /api/chat\<close>: the provider calls it made,
  and the response it sent or the exception that left it.
\<close>

definition chat_try :: "process_env \<Rightarrow> provider \<Rightarrow> jsval \<Rightarrow> provider_call list \<times> (js_error + response)" where
  "chat_try env generate req_body =
    (case get_prop req_body (lit ''message'') of
      Inl e \<Rightarrow> ([], Inl e)
    | Inr message \<Rightarrow>
        if \<not> truthy message \<or> typeof message \<noteq> lit ''string'' then
          ([], Inr \<lparr>status = 400,
             body = JObj [(lit ''error'', JStr (lit ''Message is required and must be a string''))]\<rparr>)
        else
          let apiKey = env_get env (lit ''GEMINI_API_KEY'') in
          if \<not> truthy apiKey then
            ([], Inr \<lparr>status = 500,
               body = JObj [(lit ''error'', JStr (lit ''Gemini API key not configured''))]\<rparr>)
          else
            let call = \<lparr>api_key = apiKey, model_name = lit ''gemini-2.0-flash'', prompt = message\<rparr> in
            (case generate call of
              Inl e \<Rightarrow> ([call], Inl e)
            | Inr responseText \<Rightarrow>
                ([call], Inr \<lparr>status = 200, body = JObj [(lit ''response'', JStr responseText)]\<rparr>)))"

text \<open>
  The handler: the \<open>try\<close> block, and the \<open>catch\<close> that logs the exception with
  \<open>console.error\<close> and answers 500.
\<close>

record chat_outcome =
  res :: response
  calls :: "provider_call list"
  logged :: "js_error list"

definition handleChat :: "process_env \<Rightarrow> provider \<Rightarrow> jsval \<Rightarrow> chat_outcome" where
  "handleChat env generate req_body =
    (case chat_try env generate req_body of
      (cs, Inr r) \<Rightarrow> \<lparr>res = r, calls = cs, logged = []\<rparr>
    | (cs, Inl error) \<Rightarrow>
        \<lparr>res = \<lparr>status = 500, body = JObj [(lit ''error'', JStr (lit ''Internal server error''))]\<rparr>,
         calls = cs, logged = [error]\<rparr>)"

text \<open>A value that passes the handler's validation is a string that is not empty.\<close>

fun nonempty_string :: "jsval \<Rightarrow> bool" where
  "nonempty_string (JStr s) = (s \<noteq> [])"
| "nonempty_string v = False"

fun is_string :: "jsval \<Rightarrow> bool" where
  "is_string (JStr s) = True"
| "is_string v = False"

text \<open>A provider that answers every call the same way.\<close>

definition provider_yields :: "js_error + jsstring \<Rightarrow> provider" where
  "provider_yields r call = r"

section \<open>The chat session of the client\<close>

datatype Sender = User | Bot

record Message =
  id_msg :: jsstring
  text_msg :: jsval
  sender :: Sender
  timestamp :: nat

text \<open>The three \<open>useState\<close> cells of \<open>ChatInterface\<close>.\<close>

record ChatState =
  messages :: "Message list"
  input :: jsstring
  loading :: bool

text \<open>
  \<open>String.prototype.trim\<close> removes the code units of \<open>WhiteSpace\<close> and
  \<open>LineTerminator\<close> from both ends.
\<close>

definition is_white_space :: "16 word \<Rightarrow> bool" where
  "is_white_space c =
    (c \<in> {0x0009, 0x000A, 0x000B, 0x000C, 0x000D, 0x0020, 0x00A0, 0x1680,
           0x2028, 0x2029, 0x202F, 0x205F, 0x3000, 0xFEFF}
     \<or> (0x2000 \<le> c \<and> c \<le> 0x200A))"

definition trim :: "jsstring \<Rightarrow> jsstring" where
  "trim s = rev (dropWhile is_white_space (rev (dropWhile is_white_space s)))"

text \<open>
  \<open>Number.prototype.toString\<close> on a clock reading: \<open>Date.now()\<close> is a whole number
  of milliseconds, written in decimal.
\<close>

definition digit :: "nat \<Rightarrow> 16 word" where
  "digit d = word_of_nat (48 + d)"

fun toString :: "nat \<Rightarrow> jsstring" where
  "toString n = (if n < 10 then [digit n] else toString (n div 10) @ [digit (n mod 10)])"

text \<open>The number a string of decimal digits denotes.\<close>

definition digit_value :: "16 word \<Rightarrow> nat" where
  "digit_value c = unat c - 48"

definition decimal_value :: "jsstring \<Rightarrow> nat" where
  "decimal_value s = foldl (\<lambda>n c. 10 * n + digit_value c) 0 s"

text \<open>The request \<open>axios.post(url, data)\<close> issues, and how its promise settles:
  fulfilled with \<open>res.data\<close>, or rejected.\<close>

record http_post =
  url :: jsstring
  data :: jsval

datatype settled = Fulfilled jsval | Rejected js_error

text \<open>
  \<open>handleSend\<close> up to its \<open>await\<close>. \<open>now\<close> is the reading of \<open>Date.now()\<close> and
  \<open>date\<close> that of \<open>new Date()\<close>. The result is the state after the three updates and
  the request that was issued, if any.
\<close>

definition handleSend :: "nat \<Rightarrow> nat \<Rightarrow> ChatState \<Rightarrow> ChatState \<times> http_post option" where
  "handleSend now date st =
    (if \<not> truthy (JStr (trim (input st))) \<or> loading st then (st, None)
     else
       let userMessage =
         \<lparr>id_msg = toString now, text_msg = JStr (input st), sender = User, timestamp = date\<rparr>
       in
         (st\<lparr>messages := messages st @ [userMessage], input := [], loading := True\<rparr>,
          Some \<lparr>url = lit ''http://localhost:3001/api/chat'',
                data = JObj [(lit ''message'', JStr (input st))]\<rparr>))"

text \<open>
  \<open>handleSend\<close> from its \<open>await\<close> on: the rest of the \<open>try\<close> block, the \<open>catch\<close>
  and the \<open>finally\<close>. \<open>now\<close> and \<open>date\<close> are the clock readings that end up in
  the appended message. The result is the state after the updates and what
  \<open>console.error\<close> printed.
\<close>

definition handleSend_resume :: "nat \<Rightarrow> nat \<Rightarrow> settled \<Rightarrow> ChatState \<Rightarrow> ChatState \<times> js_error list" where
  "handleSend_resume now date outcome st =
    (let attempt =
       (case outcome of
         Rejected error \<Rightarrow> Inl error
       | Fulfilled res_data \<Rightarrow>
           (case get_prop res_data (lit ''reply'') of
             Inl error \<Rightarrow> Inl error
           | Inr reply \<Rightarrow>
               Inr \<lparr>id_msg = toString (now + 1),
                    text_msg = (if truthy reply then reply else JStr (lit ''No response received.'')),
                    sender = Bot, timestamp = date\<rparr>))
     in
       (case attempt of
         Inr botMessage \<Rightarrow>
           (st\<lparr>messages := messages st @ [botMessage], loading := False\<rparr>, [])
       | Inl error \<Rightarrow>
           (st\<lparr>messages := messages st @
                [\<lparr>id_msg = toString (now + 1),
                  text_msg = JStr (lit ''Error: Could not get response from server. Check your backend connection.''),
                  sender = Bot, timestamp = date\<rparr>],
               loading := False\<rparr>,
            [error])))"

text \<open>
  A session is the component's state, the requests that are in flight and the
  console. Its events: the text field changes (\<open>setInput\<close>), \<open>handleSend\<close> is
  invoked (a click or the Enter key), and the oldest request in flight settles.
\<close>

record Session =
  ui :: ChatState
  inflight :: "http_post list"
  console :: "js_error list"

datatype event = Change jsstring | Send nat nat | Settle nat nat settled

fun step :: "Session \<Rightarrow> event \<Rightarrow> Session" where
  "step s (Change v) = s\<lparr>ui := (ui s)\<lparr>input := v\<rparr>\<rparr>"
| "step s (Send now date) =
    (case handleSend now date (ui s) of
      (st, request) \<Rightarrow>
        s\<lparr>ui := st, inflight := inflight s @ (case request of None \<Rightarrow> [] | Some r \<Rightarrow> [r])\<rparr>)"
| "step s (Settle now date outcome) =
    (case inflight s of
      [] \<Rightarrow> s
    | r # rs \<Rightarrow>
        (case handleSend_resume now date outcome (ui s) of
          (st, errors) \<Rightarrow> s\<lparr>ui := st, inflight := rs, console := console s @ errors\<rparr>))"

definition initial :: Session where
  "initial = \<lparr>ui = \<lparr>messages = [], input = [], loading = False\<rparr>, inflight = [], console = []\<rparr>"

definition exec :: "event list \<Rightarrow> Session" where
  "exec evs = foldl step initial evs"

text \<open>
  One turn: the user types a text and submits it, and the request settles before
  anything else happens.
\<close>

record turn =
  said :: jsstring
  sent_now :: nat
  sent_date :: nat
  outcome_of :: settled
  settled_now :: nat
  settled_date :: nat

definition turn_events :: "turn \<Rightarrow> event list" where
  "turn_events t =
    [Change (said t), Send (sent_now t) (sent_date t),
     Settle (settled_now t) (settled_date t) (outcome_of t)]"

text \<open>
  How the clock readings of an earlier and a later event of a session relate when
  the clock does not run backwards while a request is in flight, and a submission
  reads it more than a millisecond after every earlier settlement.
\<close>

fun timely :: "event \<Rightarrow> event \<Rightarrow> bool" where
  "timely (Send t d) (Settle t' d' r) = (t \<le> t')"
| "timely (Settle t d r) (Send t' d') = (t + 1 < t')"
| "timely e e' = True"

section \<open>Facts about values\<close>

lemma of_char_lt_256: "(of_char c :: nat) < 256"
proof -
  have "(of_char c :: nat) mod 256 < 256" by simp
  then show ?thesis by (simp only: of_char_mod_256)
qed

lemma lit_eq_iff: "lit a = lit b \<longleftrightarrow> a = b"
proof -
  have inj: "inj (\<lambda>c::char. (word_of_nat (of_char c) :: 16 word))"
  proof (rule injI)
    fix x y :: char
    assume "(word_of_nat (of_char x) :: 16 word) = word_of_nat (of_char y)"
    then have "unat (word_of_nat (of_char x) :: 16 word) = unat (word_of_nat (of_char y) :: 16 word)"
      by simp
    moreover have "(of_char x :: nat) < 2 ^ 16" "(of_char y :: nat) < 2 ^ 16"
      by (rule less_trans [OF of_char_lt_256], simp)+
    ultimately have "(of_char x :: nat) = of_char y"
      by (simp add: unat_of_nat)
    then show "x = y" by simp
  qed
  show ?thesis
    unfolding lit_def using inj by (simp add: inj_map_eq_map)
qed

lemma typeof_string_iff: "typeof v = lit ''string'' \<longleftrightarrow> is_string v"
  by (cases v) (simp_all add: lit_eq_iff)

lemma validation_iff:
  "\<not> truthy v \<or> typeof v \<noteq> lit ''string'' \<longleftrightarrow> \<not> nonempty_string v"
  by (cases v) (simp_all add: lit_eq_iff)

section \<open>The chat endpoint: validation, configuration, provider\<close>

text \<open>The \<open>try\<close> block, once \<open>message\<close> has been read from the request body.\<close>

lemma chat_try_read:
  "chat_try env generate req_body =
     (if \<not> nonempty_string v then
        ([], Inr \<lparr>status = 400,
           body = JObj [(lit ''error'', JStr (lit ''Message is required and must be a string''))]\<rparr>)
      else if \<not> truthy (env_get env (lit ''GEMINI_API_KEY'')) then
        ([], Inr \<lparr>status = 500,
           body = JObj [(lit ''error'', JStr (lit ''Gemini API key not configured''))]\<rparr>)
      else
        (case generate \<lparr>api_key = env_get env (lit ''GEMINI_API_KEY''),
                model_name = lit ''gemini-2.0-flash'', prompt = v\<rparr> of
          Inl e \<Rightarrow> ([\<lparr>api_key = env_get env (lit ''GEMINI_API_KEY''),
                model_name = lit ''gemini-2.0-flash'', prompt = v\<rparr>], Inl e)
        | Inr t \<Rightarrow> ([\<lparr>api_key = env_get env (lit ''GEMINI_API_KEY''),
                model_name = lit ''gemini-2.0-flash'', prompt = v\<rparr>],
              Inr \<lparr>status = 200, body = JObj [(lit ''response'', JStr t)]\<rparr>)))"
  if "get_prop req_body (lit ''message'') = Inr v"
proof (cases "nonempty_string v")
  case True
  then have "\<not> (\<not> truthy v \<or> typeof v \<noteq> lit ''string'')"
    using validation_iff [of v] by blast
  with True show ?thesis
    unfolding chat_try_def by (simp add: Let_def that)
next
  case False
  then have "\<not> truthy v \<or> typeof v \<noteq> lit ''string''"
    using validation_iff [of v] by blast
  with False show ?thesis
    unfolding chat_try_def by (simp add: that)
qed


text \<open>
  C3, as the code has it. For every request body from which \<open>message\<close> can be
  read (\<open>undefined\<close> when the field is absent), the handler answers 400 exactly
  when \<open>message\<close> is not a non-empty string: absent, not a string, or the empty
  string. The 400 response carries the \<open>error\<close> field and no provider call is
  made; a non-empty string never gets the validation error.
\<close>

theorem handleChat_validation:
  assumes "get_prop req_body (lit ''message'') = Inr message"
  shows "(status (res (handleChat env generate req_body)) = 400) = (\<not> nonempty_string message)
       \<and> (\<not> nonempty_string message \<longrightarrow>
            body (res (handleChat env generate req_body)) =
              JObj [(lit ''error'', JStr (lit ''Message is required and must be a string''))]
            \<and> calls (handleChat env generate req_body) = [])"
  by (simp add: handleChat_def chat_try_read [OF assms] split: sum.splits)

theorem handleChat_validation_witness:
  "status (res (handleChat Map.empty (provider_yields (Inr [])) (JObj []))) = 400
   \<and> status (res (handleChat Map.empty (provider_yields (Inr [])) (JObj [(lit ''message'', JNum 123)]))) = 400
   \<and> body (res (handleChat Map.empty (provider_yields (Inr [])) (JObj [(lit ''message'', JNum 123)]))) =
       JObj [(lit ''error'', JStr (lit ''Message is required and must be a string''))]
   \<and> status (res (handleChat Map.empty (provider_yields (Inr [])) (JObj [(lit ''message'', JStr (lit ''hi''))]))) \<noteq> 400"
  using handleChat_validation [of "JObj []" JUndefined Map.empty "provider_yields (Inr [])"]
    handleChat_validation [of "JObj [(lit ''message'', JNum 123)]" "JNum 123" Map.empty "provider_yields (Inr [])"]
    handleChat_validation [of "JObj [(lit ''message'', JStr (lit ''hi''))]" "JStr (lit ''hi'')" Map.empty "provider_yields (Inr [])"]
  by (simp add: lit_def)

text \<open>
  The claim C3 as stated fails: in the body \<open>{message: ""}\<close> the field is present
  and is a string, and the handler answers 400, because \<open>!message\<close> holds of the
  empty string.
\<close>

theorem handleChat_rejects_empty_string:
  "get_prop (JObj [(lit ''message'', JStr [])]) (lit ''message'') = Inr (JStr [])
   \<and> is_string (JStr [])
   \<and> status (res (handleChat [lit ''GEMINI_API_KEY'' \<mapsto> lit ''k''] (provider_yields (Inr (lit ''Hello'')))
        (JObj [(lit ''message'', JStr [])]))) = 400"
  by (simp add: handleChat_def chat_try_def)



text \<open>
  C5. For every request whose \<open>message\<close> passes validation, with the credential
  configured, the handler calls the provider exactly once, with the message itself
  as the prompt and nothing else beside the API key and the model name; when the
  provider yields the text \<open>t\<close> the response is 200 with the body
  \<open>{response: t}\<close>.
\<close>

theorem handleChat_success:
  assumes "get_prop req_body (lit ''message'') = Inr (JStr m)" and "m \<noteq> []"
    and "env (lit ''GEMINI_API_KEY'') = Some k" and "k \<noteq> []"
  shows "calls (handleChat env generate req_body) =
           [\<lparr>api_key = JStr k, model_name = lit ''gemini-2.0-flash'', prompt = JStr m\<rparr>]
         \<and> (\<forall>t. generate \<lparr>api_key = JStr k, model_name = lit ''gemini-2.0-flash'', prompt = JStr m\<rparr> = Inr t
              \<longrightarrow> res (handleChat env generate req_body) =
                    \<lparr>status = 200, body = JObj [(lit ''response'', JStr t)]\<rparr>)"
  using assms(2-4) by (simp add: handleChat_def chat_try_read [OF assms(1)] env_get_def split: sum.splits)

theorem handleChat_success_witness:
  "calls (handleChat [lit ''GEMINI_API_KEY'' \<mapsto> lit ''k''] (provider_yields (Inr (lit ''Hello'')))
      (JObj [(lit ''message'', JStr (lit ''hi''))])) =
     [\<lparr>api_key = JStr (lit ''k''), model_name = lit ''gemini-2.0-flash'', prompt = JStr (lit ''hi'')\<rparr>]
   \<and> res (handleChat [lit ''GEMINI_API_KEY'' \<mapsto> lit ''k''] (provider_yields (Inr (lit ''Hello'')))
      (JObj [(lit ''message'', JStr (lit ''hi''))])) =
     \<lparr>status = 200, body = JObj [(lit ''response'', JStr (lit ''Hello''))]\<rparr>"
  using handleChat_success [of "JObj [(lit ''message'', JStr (lit ''hi''))]" "lit ''hi''"
      "[lit ''GEMINI_API_KEY'' \<mapsto> lit ''k'']" "lit ''k''" "provider_yields (Inr (lit ''Hello''))"]
  by (simp add: lit_def provider_yields_def)

text \<open>
  C6. For every exception \<open>e\<close> the provider call throws, the exception leaves the
  \<open>try\<close> block, the \<open>catch\<close> logs it, and the response is 500 with the fixed
  body \<open>{error: "Internal server error"}\<close>, the same for every \<open>e\<close>. The
  handler is a total function: it answers every request with a response.
\<close>

theorem handleChat_provider_exception:
  assumes "get_prop req_body (lit ''message'') = Inr (JStr m)" and "m \<noteq> []"
    and "env (lit ''GEMINI_API_KEY'') = Some k" and "k \<noteq> []"
    and "generate \<lparr>api_key = JStr k, model_name = lit ''gemini-2.0-flash'', prompt = JStr m\<rparr> = Inl e"
  shows "snd (chat_try env generate req_body) = Inl e
         \<and> res (handleChat env generate req_body) =
             \<lparr>status = 500, body = JObj [(lit ''error'', JStr (lit ''Internal server error''))]\<rparr>
         \<and> logged (handleChat env generate req_body) = [e]"
  using assms(2-5) by (simp add: handleChat_def chat_try_read [OF assms(1)] env_get_def)

theorem handleChat_provider_exception_witness:
  "res (handleChat [lit ''GEMINI_API_KEY'' \<mapsto> lit ''k''] (provider_yields (Inl (Error (lit ''429 quota exceeded''))))
      (JObj [(lit ''message'', JStr (lit ''hi''))])) =
     \<lparr>status = 500, body = JObj [(lit ''error'', JStr (lit ''Internal server error''))]\<rparr>
   \<and> logged (handleChat [lit ''GEMINI_API_KEY'' \<mapsto> lit ''k''] (provider_yields (Inl (Error (lit ''429 quota exceeded''))))
      (JObj [(lit ''message'', JStr (lit ''hi''))])) = [Error (lit ''429 quota exceeded'')]"
  using handleChat_provider_exception [of "JObj [(lit ''message'', JStr (lit ''hi''))]" "lit ''hi''"
      "[lit ''GEMINI_API_KEY'' \<mapsto> lit ''k'']" "lit ''k''"
      "provider_yields (Inl (Error (lit ''429 quota exceeded'')))" "Error (lit ''429 quota exceeded'')"]
  by (simp add: lit_def provider_yields_def)




section \<open>The chat session: submitting and settling\<close>

declare toString.simps [simp del]

lemma dropWhile_Nil_iff: "dropWhile P xs = [] \<longleftrightarrow> list_all P xs"
  by (induction xs) simp_all

lemma trim_Nil_iff: "trim s = [] \<longleftrightarrow> list_all is_white_space s"
proof
  assume "trim s = []"
  then have "dropWhile is_white_space (rev (dropWhile is_white_space s)) = []"
    by (simp add: trim_def)
  then have all: "list_all is_white_space (dropWhile is_white_space s)"
    by (simp only: dropWhile_Nil_iff list_all_rev)
  have "dropWhile is_white_space s = []"
  proof (rule ccontr)
    assume ne: "dropWhile is_white_space s \<noteq> []"
    then have "\<not> is_white_space (hd (dropWhile is_white_space s))"
      by (rule hd_dropWhile)
    moreover from ne have "hd (dropWhile is_white_space s) \<in> set (dropWhile is_white_space s)"
      by simp
    ultimately show False using all by (simp only: list_all_iff) blast
  qed
  then show "list_all is_white_space s"
    by (simp only: dropWhile_Nil_iff)
next
  assume "list_all is_white_space s"
  then have "dropWhile is_white_space s = []"
    by (simp only: dropWhile_Nil_iff)
  then show "trim s = []" by (simp only: trim_def rev.simps dropWhile.simps)
qed

text \<open>
  C2. For every session and every clock reading, if the text in the input is empty
  or consists of white space only, or if \<open>loading\<close> is set, then \<open>handleSend\<close>
  returns the state as it was and issues no request: the whole session (messages,
  \<open>loading\<close>, input, requests in flight) is unchanged.
\<close>

theorem handleSend_guard:
  assumes "list_all is_white_space (input (ui s)) \<or> loading (ui s)"
  shows "handleSend now date (ui s) = (ui s, None) \<and> step s (Send now date) = s"
proof -
  have "handleSend now date (ui s) = (ui s, None)"
    using assms by (auto simp add: handleSend_def trim_Nil_iff)
  then show ?thesis by simp
qed

theorem handleSend_guard_witness:
  "step \<lparr>ui = \<lparr>messages = [], input = [0x0020, 0x0009, 0x3000], loading = False\<rparr>, inflight = [], console = []\<rparr> (Send 5 5)
     = \<lparr>ui = \<lparr>messages = [], input = [0x0020, 0x0009, 0x3000], loading = False\<rparr>, inflight = [], console = []\<rparr>
   \<and> handleSend 5 5 \<lparr>messages = [], input = lit ''hello'', loading = True\<rparr>
     = (\<lparr>messages = [], input = lit ''hello'', loading = True\<rparr>, None)"
  using handleSend_guard [of "\<lparr>ui = \<lparr>messages = [], input = [0x0020, 0x0009, 0x3000], loading = False\<rparr>, inflight = [], console = []\<rparr>" 5 5]
    handleSend_guard [of "\<lparr>ui = \<lparr>messages = [], input = lit ''hello'', loading = True\<rparr>, inflight = [], console = []\<rparr>" 5 5]
  by (simp add: is_white_space_def)




text \<open>
  C1 does not hold of the code. The backend answers a valid request with status 200
  and the body \<open>{response: "Hello"}\<close>; the client reads the field \<open>reply\<close> of the
  payload, which that body lacks, and appends the placeholder
  \<open>No response received.\<close> instead of the text \<open>Hello\<close>.
\<close>

theorem response_field_not_displayed:
  "res (handleChat [lit ''GEMINI_API_KEY'' \<mapsto> lit ''k''] (provider_yields (Inr (lit ''Hello'')))
      (JObj [(lit ''message'', JStr (lit ''hi''))])) =
     \<lparr>status = 200, body = JObj [(lit ''response'', JStr (lit ''Hello''))]\<rparr>
   \<and> map text_msg (messages (fst (handleSend_resume 1 1
        (Fulfilled (body (res (handleChat [lit ''GEMINI_API_KEY'' \<mapsto> lit ''k'']
           (provider_yields (Inr (lit ''Hello''))) (JObj [(lit ''message'', JStr (lit ''hi''))])))))
        \<lparr>messages = [], input = [], loading = True\<rparr>))) = [JStr (lit ''No response received.'')]"
proof -
  have sent: "res (handleChat [lit ''GEMINI_API_KEY'' \<mapsto> lit ''k''] (provider_yields (Inr (lit ''Hello'')))
      (JObj [(lit ''message'', JStr (lit ''hi''))])) =
     \<lparr>status = 200, body = JObj [(lit ''response'', JStr (lit ''Hello''))]\<rparr>"
    by (simp add: handleChat_def chat_try_def env_get_def provider_yields_def) (simp add: lit_def)
  have "get_prop (JObj [(lit ''response'', JStr (lit ''Hello''))]) (lit ''reply'') = Inr JUndefined"
    by (simp add: lit_eq_iff)
  then show ?thesis
    by (simp add: sent handleSend_resume_def)
qed

theorem response_field_not_displayed_witness:
  "map text_msg (messages (fst (handleSend_resume 1 1
        (Fulfilled (body (res (handleChat [lit ''GEMINI_API_KEY'' \<mapsto> lit ''k'']
           (provider_yields (Inr (lit ''Hello''))) (JObj [(lit ''message'', JStr (lit ''hi''))])))))
        \<lparr>messages = [], input = [], loading = True\<rparr>))) \<noteq> [JStr (lit ''Hello'')]"
proof -
  have "[JStr (lit ''No response received.'')] \<noteq> [JStr (lit ''Hello'')]"
    by (simp add: lit_eq_iff)
  then show ?thesis
    by (simp only: response_field_not_displayed [THEN conjunct2] not_False_eq_True)
qed

section \<open>Sessions as sequences of events\<close>

lemma digit_value_digit: "d < 10 \<Longrightarrow> digit_value (digit d) = d"
proof -
  assume "d < 10"
  then have "(48 + d) mod 2 ^ LENGTH(16) = 48 + d" by simp
  then have "unat (word_of_nat (48 + d) :: 16 word) = 48 + d"
    by (simp only: unat_of_nat)
  then show ?thesis by (simp only: digit_value_def digit_def add_diff_cancel_left')
qed

lemma decimal_value_snoc: "decimal_value (s @ [c]) = 10 * decimal_value s + digit_value c"
  by (simp add: decimal_value_def)

lemma decimal_value_toString: "decimal_value (toString n) = n"
proof (induction n rule: toString.induct)
  case (1 n)
  show ?case
  proof (cases "n < 10")
    case True
    then show ?thesis
      by (simp add: toString.simps [of n] decimal_value_def digit_value_digit)
  next
    case False
    with 1 have "decimal_value (toString (n div 10)) = n div 10" by simp
    with False show ?thesis
      by (simp add: toString.simps [of n] decimal_value_snoc digit_value_digit)
  qed
qed

lemma exec_Nil: "exec [] = initial"
  by (simp add: exec_def)

lemma exec_snoc: "exec (evs @ [e]) = step (exec evs) e"
  by (simp add: exec_def)

lemma exec_append: "exec (evs @ evs') = foldl step (exec evs) evs'"
  by (simp add: exec_def)

lemma step_Send_ignored:
  "list_all is_white_space (input (ui s)) \<or> loading (ui s) \<Longrightarrow> step s (Send now date) = s"
  by (auto simp add: handleSend_def trim_Nil_iff)

lemma step_Change:
  "messages (ui (step s (Change v))) = messages (ui s)"
  "loading (ui (step s (Change v))) = loading (ui s)"
  "inflight (step s (Change v)) = inflight s"
  "input (ui (step s (Change v))) = v"
  by simp_all

lemma step_Send_effective:
  assumes "\<not> list_all is_white_space (input (ui s))" and "\<not> loading (ui s)"
  shows "step s (Send now date) =
    s\<lparr>ui := (ui s)\<lparr>messages := messages (ui s) @
           [\<lparr>id_msg = toString now, text_msg = JStr (input (ui s)), sender = User, timestamp = date\<rparr>],
         input := [], loading := True\<rparr>,
       inflight := inflight s @
         [\<lparr>url = lit ''http://localhost:3001/api/chat'',
           data = JObj [(lit ''message'', JStr (input (ui s)))]\<rparr>]\<rparr>"
  using assms by (simp add: handleSend_def trim_Nil_iff)

lemma handleSend_resume_appends:
  "\<exists>m. messages (fst (handleSend_resume now date outcome st)) = messages st @ [m]
      \<and> id_msg m = toString (now + 1) \<and> sender m = Bot"
  by (simp add: handleSend_resume_def split: settled.splits sum.splits)

lemma handleSend_resume_frame:
  "loading (fst (handleSend_resume now date outcome st)) = False"
  "input (fst (handleSend_resume now date outcome st)) = input st"
  by (simp_all add: handleSend_resume_def split: settled.splits sum.splits)

lemma step_Settle_idle: "inflight s = [] \<Longrightarrow> step s (Settle now date outcome) = s"
  by simp

lemma step_Settle_effective:
  assumes "inflight s = r # rs"
  shows "(\<exists>m. messages (ui (step s (Settle now date outcome))) = messages (ui s) @ [m]
            \<and> id_msg m = toString (now + 1) \<and> sender m = Bot)
         \<and> loading (ui (step s (Settle now date outcome))) = False
         \<and> input (ui (step s (Settle now date outcome))) = input (ui s)
         \<and> inflight (step s (Settle now date outcome)) = rs"
  using assms handleSend_resume_appends [of now date outcome "ui s"]
    handleSend_resume_frame [of now date outcome "ui s"]
  by (auto simp add: split_beta)

declare step.simps [simp del]

text \<open>At most one request is in flight, and exactly while \<open>loading\<close> is set.\<close>

lemma one_in_flight:
  "(loading (ui (exec evs)) \<longrightarrow> length (inflight (exec evs)) = 1)
   \<and> (\<not> loading (ui (exec evs)) \<longrightarrow> inflight (exec evs) = [])"
proof (induction evs rule: rev_induct)
  case Nil
  show ?case by (simp add: exec_Nil initial_def)
next
  case (snoc e evs)
  let ?s = "exec evs"
  show ?case
  proof (cases e)
    case (Change v)
    with snoc show ?thesis by (simp add: exec_snoc step_Change)
  next
    case (Send now date)
    show ?thesis
    proof (cases "list_all is_white_space (input (ui ?s)) \<or> loading (ui ?s)")
      case True
      then have "step ?s (Send now date) = ?s" by (rule step_Send_ignored)
      with snoc Send show ?thesis by (simp add: exec_snoc)
    next
      case False
      then have "step ?s (Send now date) =
        ?s\<lparr>ui := (ui ?s)\<lparr>messages := messages (ui ?s) @
           [\<lparr>id_msg = toString now, text_msg = JStr (input (ui ?s)), sender = User, timestamp = date\<rparr>],
          input := [], loading := True\<rparr>,
         inflight := inflight ?s @
           [\<lparr>url = lit ''http://localhost:3001/api/chat'',
             data = JObj [(lit ''message'', JStr (input (ui ?s)))]\<rparr>]\<rparr>"
        by (simp add: step_Send_effective)
      moreover from False snoc have "inflight ?s = []" by simp
      ultimately show ?thesis using Send by (simp add: exec_snoc)
    qed
  next
    case (Settle now date outcome)
    show ?thesis
    proof (cases "inflight ?s")
      case Nil
      with snoc Settle show ?thesis by (simp add: exec_snoc step_Settle_idle)
    next
      case (Cons r rs)
      with snoc have "rs = []" by (cases "loading (ui ?s)") simp_all
      with step_Settle_effective [OF Cons, of now date outcome] Settle
      show ?thesis by (simp add: exec_snoc)
    qed
  qed
qed

lemma submit_then_in_flight:
  assumes "\<not> loading (ui s)" and "inflight s = []" and "\<not> list_all is_white_space x"
  shows "messages (ui (step (step s (Change x)) (Send now date))) =
           messages (ui s) @ [\<lparr>id_msg = toString now, text_msg = JStr x, sender = User, timestamp = date\<rparr>]
         \<and> loading (ui (step (step s (Change x)) (Send now date)))
         \<and> inflight (step (step s (Change x)) (Send now date)) =
             [\<lparr>url = lit ''http://localhost:3001/api/chat'', data = JObj [(lit ''message'', JStr x)]\<rparr>]"
proof -
  let ?s1 = "step s (Change x)"
  have "\<not> list_all is_white_space (input (ui ?s1))" "\<not> loading (ui ?s1)"
    using assms by (simp_all add: step_Change)
  then have "step ?s1 (Send now date) =
    ?s1\<lparr>ui := (ui ?s1)\<lparr>messages := messages (ui ?s1) @
           [\<lparr>id_msg = toString now, text_msg = JStr (input (ui ?s1)), sender = User, timestamp = date\<rparr>],
         input := [], loading := True\<rparr>,
       inflight := inflight ?s1 @
         [\<lparr>url = lit ''http://localhost:3001/api/chat'',
           data = JObj [(lit ''message'', JStr (input (ui ?s1)))]\<rparr>]\<rparr>"
    by (rule step_Send_effective)
  then show ?thesis using assms by (simp add: step_Change)
qed

lemma turn_appends_pair:
  assumes "\<not> loading (ui s)" and "inflight s = []" and "\<not> list_all is_white_space (said t)"
  shows "\<exists>um bm. messages (ui (foldl step s (turn_events t))) = messages (ui s) @ [um, bm]
           \<and> sender um = User \<and> text_msg um = JStr (said t) \<and> sender bm = Bot
           \<and> \<not> loading (ui (foldl step s (turn_events t)))
           \<and> inflight (foldl step s (turn_events t)) = []"
proof -
  let ?s2 = "step (step s (Change (said t))) (Send (sent_now t) (sent_date t))"
  note mid = submit_then_in_flight [OF assms, of "sent_now t" "sent_date t"]
  then have "inflight ?s2 =
      \<lparr>url = lit ''http://localhost:3001/api/chat'', data = JObj [(lit ''message'', JStr (said t))]\<rparr> # []"
    by simp
  note fin = step_Settle_effective [OF this, of "settled_now t" "settled_date t" "outcome_of t"]
  then obtain bm where "messages (ui (step ?s2 (Settle (settled_now t) (settled_date t) (outcome_of t)))) =
      messages (ui ?s2) @ [bm]" "sender bm = Bot"
    by blast
  with mid fin show ?thesis
    by (simp add: turn_events_def)
qed

lemma turn_blank:
  assumes "\<not> loading (ui s)" and "inflight s = []" and "list_all is_white_space (said t)"
  shows "foldl step s (turn_events t) = step s (Change (said t))"
proof -
  let ?s1 = "step s (Change (said t))"
  have "list_all is_white_space (input (ui ?s1)) \<or> loading (ui ?s1)"
    using assms(3) by (simp add: step_Change)
  then have "step ?s1 (Send (sent_now t) (sent_date t)) = ?s1"
    by (rule step_Send_ignored)
  moreover have "inflight ?s1 = []"
    using assms(2) by (simp add: step_Change)
  then have "step ?s1 (Settle (settled_now t) (settled_date t) (outcome_of t)) = ?s1"
    by (rule step_Settle_idle)
  ultimately show ?thesis by (simp add: turn_events_def)
qed

lemma turns_run:
  "map sender (messages (ui (exec (concat (map turn_events ts))))) =
      concat (map (\<lambda>t. [User, Bot]) (filter (\<lambda>t. \<not> list_all is_white_space (said t)) ts))
   \<and> map text_msg (filter (\<lambda>m. sender m = User) (messages (ui (exec (concat (map turn_events ts))))))
       = map (\<lambda>t. JStr (said t)) (filter (\<lambda>t. \<not> list_all is_white_space (said t)) ts)
   \<and> \<not> loading (ui (exec (concat (map turn_events ts))))
   \<and> inflight (exec (concat (map turn_events ts))) = []"
proof (induction ts rule: rev_induct)
  case Nil
  show ?case by (simp add: exec_Nil initial_def)
next
  case (snoc t ts)
  let ?s = "exec (concat (map turn_events ts))"
  let ?said = "filter (\<lambda>t. \<not> list_all is_white_space (said t)) ts"
  from snoc have IH: "map sender (messages (ui ?s)) = concat (map (\<lambda>t. [User, Bot]) ?said)"
      "map text_msg (filter (\<lambda>m. sender m = User) (messages (ui ?s))) = map (\<lambda>t. JStr (said t)) ?said"
      "\<not> loading (ui ?s)" "inflight ?s = []"
    by simp_all
  have run: "exec (concat (map turn_events (ts @ [t]))) = foldl step ?s (turn_events t)"
    by (simp add: exec_append)
  show ?case
  proof (cases "list_all is_white_space (said t)")
    case True
    from turn_blank [OF IH(3,4) True] run
    have "exec (concat (map turn_events (ts @ [t]))) = step ?s (Change (said t))" by simp
    with IH True show ?thesis by (simp add: step_Change)
  next
    case False
    from turn_appends_pair [OF IH(3,4) False]
    obtain um bm where pair: "messages (ui (foldl step ?s (turn_events t))) = messages (ui ?s) @ [um, bm]"
        "sender um = User" "text_msg um = JStr (said t)" "sender bm = Bot"
        "\<not> loading (ui (foldl step ?s (turn_events t)))" "inflight (foldl step ?s (turn_events t)) = []"
      by blast
    with IH run False show ?thesis by simp
  qed
qed

text \<open>
  C7. For every sequence of turns, each submitted only after the request of the
  previous one has settled, the senders of the resulting messages are user, bot,
  user, bot, ... with one pair per submitted text that is not blank (a blank one is
  ignored); the texts of the user messages are the submitted texts in submission
  order; and no request is left in flight. Within a turn, once \<open>handleSend\<close> has
  run, the user message is the last message and its request is the only one in
  flight: the reply is appended when it settles.
\<close>

theorem turns_alternate:
  "map sender (messages (ui (exec (concat (map turn_events ts))))) =
      concat (map (\<lambda>t. [User, Bot]) (filter (\<lambda>t. \<not> list_all is_white_space (said t)) ts))
   \<and> map text_msg (filter (\<lambda>m. sender m = User) (messages (ui (exec (concat (map turn_events ts))))))
       = map (\<lambda>t. JStr (said t)) (filter (\<lambda>t. \<not> list_all is_white_space (said t)) ts)
   \<and> \<not> loading (ui (exec (concat (map turn_events ts))))
   \<and> inflight (exec (concat (map turn_events ts))) = []
   \<and> (\<forall>x now date. \<not> list_all is_white_space x \<longrightarrow>
        messages (ui (step (step (exec (concat (map turn_events ts))) (Change x)) (Send now date))) =
          messages (ui (exec (concat (map turn_events ts)))) @
            [\<lparr>id_msg = toString now, text_msg = JStr x, sender = User, timestamp = date\<rparr>]
        \<and> inflight (step (step (exec (concat (map turn_events ts))) (Change x)) (Send now date)) =
            [\<lparr>url = lit ''http://localhost:3001/api/chat'', data = JObj [(lit ''message'', JStr x)]\<rparr>])"
proof -
  note run = turns_run [of ts]
  then have "\<not> loading (ui (exec (concat (map turn_events ts))))"
    and "inflight (exec (concat (map turn_events ts))) = []"
    by simp_all
  from submit_then_in_flight [OF this] run show ?thesis by blast
qed

theorem turns_alternate_witness:
  "map sender (messages (ui (exec (concat (map turn_events
      [\<lparr>said = lit ''hi'', sent_now = 1000, sent_date = 1000,
         outcome_of = Fulfilled (JObj [(lit ''reply'', JStr (lit ''yo''))]),
         settled_now = 1200, settled_date = 1200\<rparr>,
       \<lparr>said = lit ''  '', sent_now = 3000, sent_date = 3000,
         outcome_of = Fulfilled JNull, settled_now = 3100, settled_date = 3100\<rparr>,
       \<lparr>said = lit ''bye'', sent_now = 5000, sent_date = 5000,
         outcome_of = Rejected (Error (lit ''Network Error'')),
         settled_now = 5100, settled_date = 5100\<rparr>]))))) = [User, Bot, User, Bot]
   \<and> map text_msg (filter (\<lambda>m. sender m = User) (messages (ui (exec (concat (map turn_events
      [\<lparr>said = lit ''hi'', sent_now = 1000, sent_date = 1000,
         outcome_of = Fulfilled (JObj [(lit ''reply'', JStr (lit ''yo''))]),
         settled_now = 1200, settled_date = 1200\<rparr>,
       \<lparr>said = lit ''  '', sent_now = 3000, sent_date = 3000,
         outcome_of = Fulfilled JNull, settled_now = 3100, settled_date = 3100\<rparr>,
       \<lparr>said = lit ''bye'', sent_now = 5000, sent_date = 5000,
         outcome_of = Rejected (Error (lit ''Network Error'')),
         settled_now = 5100, settled_date = 5100\<rparr>])))))) = [JStr (lit ''hi''), JStr (lit ''bye'')]
   \<and> messages (ui (step (step (exec (concat (map turn_events
      [\<lparr>said = lit ''hi'', sent_now = 1000, sent_date = 1000,
         outcome_of = Fulfilled (JObj [(lit ''reply'', JStr (lit ''yo''))]),
         settled_now = 1200, settled_date = 1200\<rparr>]))) (Change (lit ''bye''))) (Send 5000 5001))) =
      messages (ui (exec (concat (map turn_events
      [\<lparr>said = lit ''hi'', sent_now = 1000, sent_date = 1000,
         outcome_of = Fulfilled (JObj [(lit ''reply'', JStr (lit ''yo''))]),
         settled_now = 1200, settled_date = 1200\<rparr>])))) @
      [\<lparr>id_msg = toString 5000, text_msg = JStr (lit ''bye''), sender = User, timestamp = 5001\<rparr>]"
  using turns_alternate [of
      "[\<lparr>said = lit ''hi'', sent_now = 1000, sent_date = 1000,
         outcome_of = Fulfilled (JObj [(lit ''reply'', JStr (lit ''yo''))]),
         settled_now = 1200, settled_date = 1200\<rparr>,
       \<lparr>said = lit ''  '', sent_now = 3000, sent_date = 3000,
         outcome_of = Fulfilled JNull, settled_now = 3100, settled_date = 3100\<rparr>,
       \<lparr>said = lit ''bye'', sent_now = 5000, sent_date = 5000,
         outcome_of = Rejected (Error (lit ''Network Error'')),
         settled_now = 5100, settled_date = 5100\<rparr>]"]
    turns_alternate [of
      "[\<lparr>said = lit ''hi'', sent_now = 1000, sent_date = 1000,
         outcome_of = Fulfilled (JObj [(lit ''reply'', JStr (lit ''yo''))]),
         settled_now = 1200, settled_date = 1200\<rparr>]"]
  by (simp add: is_white_space_def lit_def)

lemma ids_invariant:
  assumes "sorted_wrt timely evs"
  shows "sorted_wrt (<) (map (\<lambda>m. decimal_value (id_msg m)) (messages (ui (exec evs))))
    \<and> (\<not> loading (ui (exec evs)) \<longrightarrow>
         (\<forall>m \<in> set (messages (ui (exec evs))).
            \<exists>t d r. Settle t d r \<in> set evs \<and> decimal_value (id_msg m) \<le> t + 1))
    \<and> (loading (ui (exec evs)) \<longrightarrow>
         (\<forall>m \<in> set (messages (ui (exec evs))).
            \<exists>t d. Send t d \<in> set evs \<and> decimal_value (id_msg m) \<le> t))"
  using assms
proof (induction evs rule: rev_induct)
  case Nil
  show ?case by (simp add: exec_Nil initial_def)
next
  case (snoc e evs)
  let ?s = "exec evs"
  let ?num = "\<lambda>m. decimal_value (id_msg m)"
  from snoc.prems have tm: "sorted_wrt timely evs" and late: "\<forall>x \<in> set evs. timely x e"
    by (simp_all add: sorted_wrt_append)
  from snoc.IH [OF tm] have
    srt: "sorted_wrt (<) (map ?num (messages (ui ?s)))"
    and idle: "\<not> loading (ui ?s) \<Longrightarrow> m \<in> set (messages (ui ?s)) \<Longrightarrow>
         \<exists>t d r. Settle t d r \<in> set evs \<and> ?num m \<le> t + 1"
    and busy: "loading (ui ?s) \<Longrightarrow> m \<in> set (messages (ui ?s)) \<Longrightarrow>
         \<exists>t d. Send t d \<in> set evs \<and> ?num m \<le> t" for m
    by blast+
  have same: ?case if "step ?s e = ?s"
  proof -
    have "exec (evs @ [e]) = ?s" using that by (simp add: exec_snoc)
    moreover have "\<exists>t d r. Settle t d r \<in> set (evs @ [e]) \<and> ?num m \<le> t + 1"
      if "\<not> loading (ui ?s)" "m \<in> set (messages (ui ?s))" for m
      using idle [OF that] by auto
    moreover have "\<exists>t d. Send t d \<in> set (evs @ [e]) \<and> ?num m \<le> t"
      if "loading (ui ?s)" "m \<in> set (messages (ui ?s))" for m
      using busy [OF that] by auto
    ultimately show ?thesis using srt by simp
  qed
  show ?case
  proof (cases e)
    case (Change v)
    have "exec (evs @ [e]) = step ?s (Change v)" using Change by (simp add: exec_snoc)
    moreover have "\<exists>t d r. Settle t d r \<in> set (evs @ [e]) \<and> ?num m \<le> t + 1"
      if "\<not> loading (ui ?s)" "m \<in> set (messages (ui ?s))" for m
      using idle [OF that] by auto
    moreover have "\<exists>t d. Send t d \<in> set (evs @ [e]) \<and> ?num m \<le> t"
      if "loading (ui ?s)" "m \<in> set (messages (ui ?s))" for m
      using busy [OF that] by auto
    ultimately show ?thesis using srt by (simp add: step_Change)
  next
    case (Send now date)
    show ?thesis
    proof (cases "list_all is_white_space (input (ui ?s)) \<or> loading (ui ?s)")
      case True
      then have "step ?s e = ?s" unfolding Send by (rule step_Send_ignored)
      then show ?thesis by (rule same)
    next
      case False
      then have free: "\<not> loading (ui ?s)" by simp
      from False have st: "step ?s (Send now date) =
        ?s\<lparr>ui := (ui ?s)\<lparr>messages := messages (ui ?s) @
           [\<lparr>id_msg = toString now, text_msg = JStr (input (ui ?s)), sender = User, timestamp = date\<rparr>],
          input := [], loading := True\<rparr>,
         inflight := inflight ?s @
           [\<lparr>url = lit ''http://localhost:3001/api/chat'',
             data = JObj [(lit ''message'', JStr (input (ui ?s)))]\<rparr>]\<rparr>"
        by (simp add: step_Send_effective)
      have below: "?num m < now" if "m \<in> set (messages (ui ?s))" for m
      proof -
        from idle [OF free that] obtain t d r where "Settle t d r \<in> set evs" "?num m \<le> t + 1"
          by blast
        moreover from this late Send have "t + 1 < now" by fastforce
        ultimately show ?thesis by simp
      qed
      have "sorted_wrt (<) (map ?num (messages (ui (exec (evs @ [e])))))"
        using srt below by (simp add: exec_snoc Send st sorted_wrt_append decimal_value_toString)
      moreover have "loading (ui (exec (evs @ [e])))"
        by (simp add: exec_snoc Send st)
      moreover have "\<exists>t d. Send t d \<in> set (evs @ [e]) \<and> ?num m \<le> t"
        if "m \<in> set (messages (ui (exec (evs @ [e]))))" for m
      proof -
        from that have "?num m \<le> now"
          using below by (auto simp add: exec_snoc Send st decimal_value_toString intro: less_imp_le)
        then show ?thesis using Send by auto
      qed
      ultimately show ?thesis by blast
    qed
  next
    case (Settle now date outcome)
    show ?thesis
    proof (cases "inflight ?s")
      case Nil
      then have "step ?s e = ?s" unfolding Settle by (rule step_Settle_idle)
      then show ?thesis by (rule same)
    next
      case (Cons r rs)
      with one_in_flight [of evs] have held: "loading (ui ?s)" by auto
      from step_Settle_effective [OF Cons, of now date outcome]
      obtain bm where st: "messages (ui (step ?s (Settle now date outcome))) = messages (ui ?s) @ [bm]"
          "id_msg bm = toString (now + 1)"
          "loading (ui (step ?s (Settle now date outcome))) = False"
        by blast
      have below: "?num m < now + 1" if "m \<in> set (messages (ui ?s))" for m
      proof -
        from busy [OF held that] obtain t d where "Send t d \<in> set evs" "?num m \<le> t"
          by blast
        moreover from this late Settle have "t \<le> now" by fastforce
        ultimately show ?thesis by simp
      qed
      have "sorted_wrt (<) (map ?num (messages (ui (exec (evs @ [e])))))"
        using srt below by (simp add: exec_snoc Settle st sorted_wrt_append decimal_value_toString)
      moreover have "\<not> loading (ui (exec (evs @ [e])))"
        by (simp add: exec_snoc Settle st)
      moreover have "\<exists>t d r. Settle t d r \<in> set (evs @ [e]) \<and> ?num m \<le> t + 1"
        if "m \<in> set (messages (ui (exec (evs @ [e]))))" for m
      proof -
        from that have "?num m \<le> now + 1"
          using below by (auto simp add: exec_snoc Settle st decimal_value_toString intro: less_imp_le)
        then show ?thesis using Settle by auto
      qed
      ultimately show ?thesis by blast
    qed
  qed
qed

text \<open>
  C8, as the code has it. Ids are clock readings. For every session reached by
  events whose clock readings are \<open>timely\<close> (a settlement does not read an earlier
  clock value than a submission before it, and a submission reads a value more
  than 1 above that of every settlement before it), the ids of the messages are
  strictly increasing as numbers in creation order, and pairwise distinct as
  strings.
\<close>

theorem ids_increase:
  assumes "sorted_wrt timely evs"
  shows "sorted_wrt (<) (map (\<lambda>m. decimal_value (id_msg m)) (messages (ui (exec evs))))
       \<and> distinct (map id_msg (messages (ui (exec evs))))"
proof -
  have srt: "sorted_wrt (<) (map (\<lambda>m. decimal_value (id_msg m)) (messages (ui (exec evs))))"
    using ids_invariant [OF assms] by blast
  then have "distinct (map decimal_value (map id_msg (messages (ui (exec evs)))))"
    by (simp add: strict_sorted_iff comp_def)
  then have "distinct (map id_msg (messages (ui (exec evs))))"
    by (metis distinct_map)
  with srt show ?thesis by simp
qed


theorem ids_increase_witness:
  "sorted_wrt timely
     [Change (lit ''hi''), Send 1000 1000, Settle 1000 1001 (Fulfilled (JObj [(lit ''reply'', JStr (lit ''yo''))])),
      Change (lit ''bye''), Send 1002 1002, Settle 1005 1005 (Rejected (Error (lit ''Network Error'')))]
   \<and> map id_msg (messages (ui (exec
     [Change (lit ''hi''), Send 1000 1000, Settle 1000 1001 (Fulfilled (JObj [(lit ''reply'', JStr (lit ''yo''))])),
      Change (lit ''bye''), Send 1002 1002, Settle 1005 1005 (Rejected (Error (lit ''Network Error'')))]))) =
     [toString 1000, toString 1001, toString 1002, toString 1006]
   \<and> sorted_wrt (<) (map (\<lambda>m. decimal_value (id_msg m)) (messages (ui (exec
     [Change (lit ''hi''), Send 1000 1000, Settle 1000 1001 (Fulfilled (JObj [(lit ''reply'', JStr (lit ''yo''))])),
      Change (lit ''bye''), Send 1002 1002, Settle 1005 1005 (Rejected (Error (lit ''Network Error'')))]))))
   \<and> distinct (map id_msg (messages (ui (exec
     [Change (lit ''hi''), Send 1000 1000, Settle 1000 1001 (Fulfilled (JObj [(lit ''reply'', JStr (lit ''yo''))])),
      Change (lit ''bye''), Send 1002 1002, Settle 1005 1005 (Rejected (Error (lit ''Network Error'')))]))))"
  using ids_increase [of
     "[Change (lit ''hi''), Send 1000 1000, Settle 1000 1001 (Fulfilled (JObj [(lit ''reply'', JStr (lit ''yo''))])),
      Change (lit ''bye''), Send 1002 1002, Settle 1005 1005 (Rejected (Error (lit ''Network Error'')))]"]
  by (simp add: exec_def initial_def step.simps handleSend_def handleSend_resume_def trim_def
      is_white_space_def lit_def)

text \<open>
  The claim C8 as stated fails. A reply arrives when the clock reads 1300 and gets
  the id \<open>1301\<close>; the next submission reads 1301 from the clock and gets the same
  id.
\<close>

theorem ids_collide:
  "map id_msg (messages (ui (exec
     [Change (lit ''hi''), Send 1000 1000, Settle 1300 1300 (Fulfilled (JObj [(lit ''reply'', JStr (lit ''yo''))])),
      Change (lit ''bye''), Send 1301 1301]))) = [toString 1000, toString 1301, toString 1301]
   \<and> \<not> distinct (map id_msg (messages (ui (exec
     [Change (lit ''hi''), Send 1000 1000, Settle 1300 1300 (Fulfilled (JObj [(lit ''reply'', JStr (lit ''yo''))])),
      Change (lit ''bye''), Send 1301 1301]))))"
  by (simp add: exec_def initial_def step.simps handleSend_def handleSend_resume_def trim_def
      is_white_space_def lit_def)

end
